theory Spec2Isabelle
  imports Main "HOL-Library.AList" "HOL-Library.Sublist"
begin

section \<open>Python values used by the scraper and the parser\<close>

text \<open>
  The exceptions that the modelled code can see.  The first four come from the browser
  driver (\<open>WebDriverException\<close> stands for every driver exception other than the three
  the code names), the last two from Python and pandas.
\<close>

datatype py_exn =
    TimeoutException
  | ElementClickInterceptedException
  | ElementNotInteractableException
  | WebDriverException
  | KeyError
  | ValueError

text \<open>Sequencing of calls that may raise: the first exception ends the computation.\<close>

definition bind_exn :: "py_exn + 'a \<Rightarrow> ('a \<Rightarrow> py_exn + 'b) \<Rightarrow> py_exn + 'b" where
  "bind_exn m f = (case m of Inl e \<Rightarrow> Inl e | Inr x \<Rightarrow> f x)"

subsection \<open>Strings\<close>

text \<open>
  Python strings are modelled as \<open>string\<close>.  White space and digits are the ASCII ones;
  the non-ASCII characters that \<open>str.strip\<close> and \<open>str.isdigit\<close> also accept are outside
  the model.
\<close>

definition is_space :: "char \<Rightarrow> bool" where
  "is_space c = (c \<in> set [CHR '' '', CHR 0x09, CHR 0x0A, CHR 0x0B, CHR 0x0C, CHR 0x0D,
                            CHR 0x1C, CHR 0x1D, CHR 0x1E, CHR 0x1F])"

definition strip :: "string \<Rightarrow> string" where
  "strip s = rev (dropWhile is_space (rev (dropWhile is_space s)))"

definition is_digit :: "char \<Rightarrow> bool" where
  "is_digit c = (c \<in> set ''0123456789'')"

definition isdigit :: "string \<Rightarrow> bool" where
  "isdigit s = (s \<noteq> [] \<and> list_all is_digit s)"

definition startswith :: "string \<Rightarrow> string \<Rightarrow> bool" where
  "startswith s pre = (take (length pre) s = pre)"

text \<open>\<open>str_in sub s\<close> is Python's \<open>sub in s\<close> on strings.\<close>

fun str_in :: "string \<Rightarrow> string \<Rightarrow> bool" where
  "str_in sub [] = (sub = [])"
| "str_in sub (c # cs) = (startswith (c # cs) sub \<or> str_in sub cs)"

text \<open>
  \<open>split1 sep s\<close> is \<open>s.split(sep, 1)\<close> for a one-character separator: one piece when
  the separator does not occur, otherwise the text before its first occurrence and
  everything after it.
\<close>

fun split1 :: "char \<Rightarrow> string \<Rightarrow> string list" where
  "split1 sep [] = [[]]"
| "split1 sep (c # cs) =
     (if c = sep then [[], cs]
      else (case split1 sep cs of
              [] \<Rightarrow> []
            | piece # rest \<Rightarrow> (c # piece) # rest))"

section \<open>parser.py: normalising titles with the language model\<close>

text \<open>
  A data frame is modelled by its rows, each row a dictionary from column names to
  cell values, kept as an association list in column order.
\<close>

type_synonym row = "(string \<times> string) list"
type_synonym dataframe = "row list"


text \<open>
  The list comprehension of \<open>batch_parse\<close>:
  \<^verbatim>\<open>s.split("|", 1) if "|" in s else [s, ""]\<close>.
\<close>

definition split_response :: "string \<Rightarrow> string list" where
  "split_response s = (if CHR ''|'' \<in> set s then split1 CHR ''|'' s else [s, ''''])"

text \<open>
  \<open>pd.DataFrame(cells, index=df.index)\<close> has as many columns as its longest row has
  cells, and none when there are no rows.
\<close>

definition frame_width :: "string list list \<Rightarrow> nat" where
  "frame_width cells = foldr (\<lambda>r w. max (length r) w) cells 0"

text \<open>
  \<open>df[["building", "trans_type"]] = frame\<close>: pandas raises \<open>ValueError\<close> (columns must
  be same length as key) unless the frame has exactly two columns; otherwise column 0
  is stored under \<open>building\<close> and column 1 under \<open>trans_type\<close>, row by row, an existing
  column being overwritten in place and a new one appended.
\<close>

definition assign_building_trans_type ::
    "dataframe \<Rightarrow> string list list \<Rightarrow> py_exn + dataframe" where
  "assign_building_trans_type df cells =
     (if frame_width cells \<noteq> 2 then Inl ValueError
      else Inr (map2 (\<lambda>r c. AList.update ''trans_type'' (c ! 1)
                               (AList.update ''building'' (c ! 0) r)) df cells))"



section \<open>carousell_scraper.py: the parsed document\<close>

text \<open>
  The tree that BeautifulSoup builds: a tag has a name, attributes and contents; the
  other nodes are strings.  Every attribute is a string; \<open>class\<close>, which BeautifulSoup
  splits at white space, is kept as its text, because each filter the scraper applies
  to it is a substring test for a marker without white space and so holds of the text
  exactly when it holds of one of the parts or of the parts joined by spaces, which is
  what BeautifulSoup tests.  Comments and other special strings are not modelled.
\<close>

datatype node =
    Tag string "(string \<times> string) list" "node list"
  | NavigableString string

text \<open>\<open>tag.name == nm\<close>, false of a string node.\<close>

fun is_named :: "string \<Rightarrow> node \<Rightarrow> bool" where
  "is_named nm (Tag n as cs) = (n = nm)"
| "is_named nm (NavigableString s) = False"

text \<open>\<open>tag.get(key)\<close>, \<open>tag.get(key, default)\<close> and \<open>tag[key]\<close>.\<close>

fun get_attr :: "node \<Rightarrow> string \<Rightarrow> string option" where
  "get_attr (Tag n as cs) key = map_of as key"
| "get_attr (NavigableString s) key = None"

definition get_or :: "node \<Rightarrow> string \<Rightarrow> string \<Rightarrow> string" where
  "get_or t key dflt = (case get_attr t key of None \<Rightarrow> dflt | Some v \<Rightarrow> v)"

definition getitem :: "node \<Rightarrow> string \<Rightarrow> py_exn + string" where
  "getitem t key = (case get_attr t key of None \<Rightarrow> Inl KeyError | Some v \<Rightarrow> Inr v)"

text \<open>\<open>tag.text\<close>: the strings below the tag, concatenated in document order.\<close>

fun get_text :: "node \<Rightarrow> string" where
  "get_text (NavigableString s) = s"
| "get_text (Tag n as cs) = concat (map get_text cs)"

text \<open>
  \<open>walk prev ns\<close> lists, in document order, the nodes \<open>ns\<close> and everything below them,
  each with its previous siblings, nearest first; \<open>prev\<close> are the previous siblings of
  the first node of \<open>ns\<close>.
\<close>

fun walk :: "node list \<Rightarrow> node list \<Rightarrow> (node \<times> node list) list" where
  "walk prev [] = []"
| "walk prev (Tag n as cs # rest) =
     (Tag n as cs, prev) # walk [] cs @ walk (Tag n as cs # prev) rest"
| "walk prev (NavigableString s # rest) =
     (NavigableString s, prev) # walk (NavigableString s # prev) rest"

fun descendants_with_siblings :: "node \<Rightarrow> (node \<times> node list) list" where
  "descendants_with_siblings (Tag n as cs) = walk [] cs"
| "descendants_with_siblings (NavigableString s) = []"

definition descendants :: "node \<Rightarrow> node list" where
  "descendants t = map fst (descendants_with_siblings t)"

text \<open>\<open>tag.find_all(...)\<close> and \<open>tag.find(...)\<close> with the filter as a predicate on nodes.\<close>

definition bs_find_all :: "(node \<Rightarrow> bool) \<Rightarrow> node \<Rightarrow> node list" where
  "bs_find_all P t = filter P (descendants t)"

definition bs_find :: "(node \<Rightarrow> bool) \<Rightarrow> node \<Rightarrow> node option" where
  "bs_find P t = (case bs_find_all P t of [] \<Rightarrow> None | r # rs \<Rightarrow> Some r)"



text \<open>\<open>span.find_previous_sibling(nm)\<close>, from the span's previous siblings, nearest first.\<close>

definition find_previous_sibling :: "string \<Rightarrow> node list \<Rightarrow> node option" where
  "find_previous_sibling nm prev = List.find (is_named nm) prev"

subsection \<open>The filters of \<open>extract_listings\<close>\<close>

definition has_attr :: "string \<Rightarrow> node \<Rightarrow> bool" where
  "has_attr key t = (get_attr t key \<noteq> None)"

text \<open>\<open>lambda x: x and marker in x\<close> applied to the attribute \<open>key\<close>.\<close>

definition attr_contains :: "string \<Rightarrow> string \<Rightarrow> node \<Rightarrow> bool" where
  "attr_contains key marker t =
     (case get_attr t key of None \<Rightarrow> False | Some x \<Rightarrow> x \<noteq> [] \<and> str_in marker x)"

definition p_with_title :: "node \<Rightarrow> bool" where
  "p_with_title t = (is_named ''p'' t \<and> has_attr ''title'' t)"

definition span_titled_php :: "node \<Rightarrow> bool" where
  "span_titled_php t = (is_named ''span'' t \<and> startswith (get_or t ''title'' '''') ''PHP'')"

definition features_div_filter :: "node \<Rightarrow> bool" where
  "features_div_filter t = (is_named ''div'' t \<and> attr_contains ''class'' ''D_qc'' t)"

definition span_with_title :: "node \<Rightarrow> bool" where
  "span_with_title t = (is_named ''span'' t \<and> has_attr ''title'' t)"

definition img_alt_src :: "node \<Rightarrow> bool" where
  "img_alt_src t = (is_named ''img'' t \<and> has_attr ''alt'' t \<and> has_attr ''src'' t)"

definition a_href :: "node \<Rightarrow> bool" where
  "a_href t = (is_named ''a'' t \<and> has_attr ''href'' t)"

definition a_seller :: "node \<Rightarrow> bool" where
  "a_seller t = (is_named ''a'' t \<and> attr_contains ''href'' ''/u/'' t)"

definition p_seller_name :: "node \<Rightarrow> bool" where
  "p_seller_name t =
     (is_named ''p'' t \<and> get_attr t ''data-testid'' = Some ''listing-card-text-seller-name'')"

definition button_like :: "node \<Rightarrow> bool" where
  "button_like t =
     (is_named ''button'' t \<and> get_attr t ''data-testid'' = Some ''listing-card-btn-like'')"

definition p_days_ago :: "node \<Rightarrow> bool" where
  "p_days_ago t =
     (is_named ''p'' t \<and>
      (case get_attr t ''class'' of
         None \<Rightarrow> False
       | Some x \<Rightarrow> x \<noteq> [] \<and> (str_in ''D_pw'' x \<or> str_in ''D_jG'' x \<or> str_in ''D_qa'' x)))"

definition listing_card :: "node \<Rightarrow> bool" where
  "listing_card t =
     (is_named ''div'' t \<and>
      (case get_attr t ''data-testid'' of
         None \<Rightarrow> False
       | Some x \<Rightarrow> x \<noteq> [] \<and> startswith x ''listing-card-''))"

subsection \<open>\<open>extract_from_card\<close>, field by field\<close>

text \<open>
  The loop over the \<open>p\<close> tags: the first one with non-blank text gives the title, and
  the title keeps its initial value when there is none.
\<close>

fun title_loop :: "string \<Rightarrow> node list \<Rightarrow> string" where
  "title_loop title [] = title"
| "title_loop title (p # p_tags) =
     (if get_text p \<noteq> [] \<and> length (strip (get_text p)) > 0 then strip (get_text p)
      else title_loop title p_tags)"

definition extract_title :: "node \<Rightarrow> string \<Rightarrow> py_exn + string" where
  "extract_title listing title =
     (case bs_find p_with_title listing of
        Some title_tag \<Rightarrow> getitem title_tag ''title''
      | None \<Rightarrow> Inr (title_loop title (bs_find_all (is_named ''p'') listing)))"

fun price_loop :: "string \<Rightarrow> node list \<Rightarrow> string" where
  "price_loop price [] = price"
| "price_loop price (span # span_tags) =
     (if startswith (strip (get_text span)) ''PHP'' then strip (get_text span)
      else price_loop price span_tags)"

definition extract_price :: "node \<Rightarrow> string \<Rightarrow> py_exn + string" where
  "extract_price listing price =
     (case bs_find span_titled_php listing of
        Some price_tag \<Rightarrow> getitem price_tag ''title''
      | None \<Rightarrow> Inr (price_loop price (bs_find_all (is_named ''span'') listing)))"

text \<open>The four variables that the loop over the feature spans assigns.\<close>

record features =
  bedrooms :: string
  bathrooms :: string
  size_s :: string
  remarks :: string

text \<open>One iteration of the loop, for a span and its previous siblings.\<close>

definition feature_step :: "features \<Rightarrow> node \<times> node list \<Rightarrow> py_exn + features" where
  "feature_step st sp =
     (case sp of (span, prev) \<Rightarrow>
        bind_exn (getitem span ''title'') (\<lambda>title_val.
          if str_in ''sqm'' title_val then Inr (st\<lparr>size_s := title_val\<rparr>)
          else if isdigit title_val then
            (case find_previous_sibling ''img'' prev of
               None \<Rightarrow> Inr st
             | Some prev_img \<Rightarrow>
                 if str_in ''ic_bed.svg'' (get_or prev_img ''src'' '''')
                 then Inr (st\<lparr>bedrooms := title_val\<rparr>)
                 else if str_in ''ic_bath.svg'' (get_or prev_img ''src'' '''')
                 then Inr (st\<lparr>bathrooms := title_val\<rparr>)
                 else Inr st)
          else Inr (st\<lparr>remarks := title_val\<rparr>)))"

fun feature_loop :: "features \<Rightarrow> (node \<times> node list) list \<Rightarrow> py_exn + features" where
  "feature_loop st [] = Inr st"
| "feature_loop st (sp # feature_spans) =
     bind_exn (feature_step st sp) (\<lambda>st'. feature_loop st' feature_spans)"

definition feature_spans_of :: "node \<Rightarrow> (node \<times> node list) list" where
  "feature_spans_of features_div =
     filter (\<lambda>sp. span_with_title (fst sp)) (descendants_with_siblings features_div)"

definition extract_features :: "node \<Rightarrow> features \<Rightarrow> py_exn + features" where
  "extract_features listing st =
     (case bs_find features_div_filter listing of
        None \<Rightarrow> Inr st
      | Some features_div \<Rightarrow> feature_loop st (feature_spans_of features_div))"

definition extract_image_url :: "node \<Rightarrow> py_exn + string" where
  "extract_image_url listing =
     (case bs_find img_alt_src listing of
        Some img_tag \<Rightarrow> getitem img_tag ''src''
      | None \<Rightarrow> Inr '''')"

definition extract_link :: "node \<Rightarrow> py_exn + string" where
  "extract_link listing =
     (case bs_find a_href listing of
        Some link_tag \<Rightarrow>
          bind_exn (getitem link_tag ''href'') (\<lambda>href. Inr (''https://www.carousell.ph'' @ href))
      | None \<Rightarrow> Inr '''')"

definition extract_seller_profile :: "node \<Rightarrow> py_exn + string" where
  "extract_seller_profile listing =
     (case bs_find a_seller listing of
        Some seller_tag \<Rightarrow>
          bind_exn (getitem seller_tag ''href'') (\<lambda>href. Inr (''https://www.carousell.ph'' @ href))
      | None \<Rightarrow> Inr '''')"

definition extract_seller_name :: "node \<Rightarrow> string" where
  "extract_seller_name listing =
     (case bs_find p_seller_name listing of
        Some seller_name_tag \<Rightarrow> strip (get_text seller_name_tag)
      | None \<Rightarrow> '''')"

definition extract_likes :: "node \<Rightarrow> string" where
  "extract_likes listing =
     (case bs_find button_like listing of
        None \<Rightarrow> ''0''
      | Some likes_tag \<Rightarrow>
          (case bs_find (is_named ''span'') likes_tag of
             None \<Rightarrow> ''0''
           | Some span \<Rightarrow> strip (get_text span)))"

definition extract_days_ago :: "node \<Rightarrow> string" where
  "extract_days_ago listing =
     (case bs_find p_days_ago listing of
        Some days_ago_tag \<Rightarrow> strip (get_text days_ago_tag)
      | None \<Rightarrow> '''')"

text \<open>
  The whole function: the variables are initialised (every one to the empty string but
  \<open>likes\<close>), the fields are extracted in the order of the source, and the dictionary is
  returned with its thirteen keys in the order of the source.
\<close>

definition extract_from_card :: "node \<Rightarrow> py_exn + row" where
  "extract_from_card listing =
     (let location = '''' in
      bind_exn (extract_title listing '''') (\<lambda>title.
      bind_exn (extract_price listing '''') (\<lambda>price.
      bind_exn (extract_features listing
                  \<lparr>bedrooms = '''', bathrooms = '''', size_s = '''', remarks = ''''\<rparr>) (\<lambda>f.
      bind_exn (extract_image_url listing) (\<lambda>image_url.
      bind_exn (extract_link listing) (\<lambda>link.
      bind_exn (extract_seller_profile listing) (\<lambda>seller_profile.
        Inr [(''title'', title),
             (''price'', price),
             (''bedrooms'', bedrooms f),
             (''bathrooms'', bathrooms f),
             (''size'', size_s f),
             (''location'', location),
             (''remarks'', remarks f),
             (''image_url'', image_url),
             (''listing_url'', link),
             (''seller_profile'', seller_profile),
             (''seller_name'', extract_seller_name listing),
             (''likes'', extract_likes listing),
             (''days_ago'', extract_days_ago listing)])))))))"

subsection \<open>\<open>extract_listings\<close>\<close>

text \<open>The loop that appends one record for each listing card.\<close>

fun cards_loop :: "row list \<Rightarrow> node list \<Rightarrow> py_exn + row list" where
  "cards_loop listings [] = Inr listings"
| "cards_loop listings (listing # cards) =
     bind_exn (extract_from_card listing) (\<lambda>r. cards_loop (listings @ [r]) cards)"

text \<open>
  \<open>lxml\<close> is the parser behind \<open>BeautifulSoup(html, "lxml")\<close>: it turns any markup into
  the document node.  The \<open>ValueError\<close> is the one raised when no listing was found.
\<close>

definition extract_listings :: "(string \<Rightarrow> node) \<Rightarrow> string \<Rightarrow> py_exn + (string \<times> dataframe)" where
  "extract_listings lxml html =
     (let soup = lxml html;
          page_title = (case bs_find (is_named ''title'') soup of
                          Some title_tag \<Rightarrow> strip (get_text title_tag)
                        | None \<Rightarrow> '''')
      in bind_exn (cards_loop [] (bs_find_all listing_card soup)) (\<lambda>listings.
           if listings = [] then Inl ValueError else Inr (page_title, listings)))"

section \<open>carousell_scraper.py: driving the browser\<close>

text \<open>
  The elements that the scraper locates:
  \<^item> \<open>LocationInput\<close> is \<^verbatim>\<open>input[aria-label='Location']\<close>;
  \<^item> \<open>FilterLabel location\<close> is the label with a span that contains \<open>location\<close>;
  \<^item> \<open>SearchButton\<close> is \<^verbatim>\<open>//button[./div[text()='Search']]\<close>;
  \<^item> \<open>ShowMoreByText\<close> is \<^verbatim>\<open>//button[normalize-space(text())='Show more results']\<close>,
    which \<open>_click_search_button\<close> waits for;
  \<^item> \<open>ShowMoreButton\<close> is \<^verbatim>\<open>//button[normalize-space()='Show more results']\<close>,
    which \<open>_click_show_more\<close> waits for and clicks.
\<close>

datatype locator =
    LocationInput
  | FilterLabel string
  | SearchButton
  | ShowMoreByText
  | ShowMoreButton

text \<open>
  The calls that the scraper makes on the driver; the number of a wait is its bound in
  seconds.  \<open>ScriptClick\<close> is \<^verbatim>\<open>execute_script("arguments[0].click();", element)\<close>.
\<close>

datatype event =
    NewChrome
  | Get string
  | WaitVisible locator nat
  | WaitClickable locator nat
  | Clear locator
  | SendKeys locator string
  | ScriptClick locator
  | ScrollIntoView locator
  | Click locator
  | PageSource
  | Quit

text \<open>
  The browser and the site are the environment.  The state of a session is the list of
  the calls made so far; \<open>outcome w tr e\<close> tells whether the call \<open>e\<close> made after \<open>tr\<close>
  returns (\<open>None\<close>) or raises, and \<open>page_source w tr\<close> is the markup of the page after
  \<open>tr\<close>.  A wait that is not satisfied within its bound raises \<open>TimeoutException\<close>.
  \<open>driver.quit()\<close> of the Chrome driver discards the errors of closing and is modelled
  as returning always; the printed messages are left out.
\<close>

record world =
  outcome :: "event list \<Rightarrow> event \<Rightarrow> py_exn option"
  page_source :: "event list \<Rightarrow> string"

type_synonym 'a run = "(py_exn + 'a) \<times> event list"

definition call :: "world \<Rightarrow> event list \<Rightarrow> event \<Rightarrow> unit run" where
  "call w tr e = (case outcome w tr e of None \<Rightarrow> Inr () | Some x \<Rightarrow> Inl x, tr @ [e])"

text \<open>The next statement runs when the one before it has not raised.\<close>

definition then_do :: "'a run \<Rightarrow> ('a \<Rightarrow> event list \<Rightarrow> 'b run) \<Rightarrow> 'b run" where
  "then_do r f = (case r of (Inl e, tr) \<Rightarrow> (Inl e, tr) | (Inr x, tr) \<Rightarrow> f x tr)"

definition click_checkbox_by_label :: "world \<Rightarrow> string \<Rightarrow> event list \<Rightarrow> unit run" where
  "click_checkbox_by_label w location tr =
     then_do (call w tr (WaitClickable (FilterLabel location) 10)) (\<lambda>label tr.
       call w tr (ScriptClick (FilterLabel location)))"

text \<open>\<open>_set_location_filter\<close>: a \<open>TimeoutException\<close> is reported and raised again.\<close>

definition set_location_filter :: "world \<Rightarrow> string \<Rightarrow> event list \<Rightarrow> unit run" where
  "set_location_filter w location tr =
     (case then_do (call w tr (WaitVisible LocationInput 10)) (\<lambda>location_input tr.
           then_do (call w tr (Clear LocationInput)) (\<lambda>u tr.
           then_do (call w tr (SendKeys LocationInput location)) (\<lambda>u tr.
           click_checkbox_by_label w location tr))) of
        (Inl TimeoutException, tr') \<Rightarrow> (Inl TimeoutException, tr')
      | r \<Rightarrow> r)"

text \<open>\<open>_click_search_button\<close>: a \<open>TimeoutException\<close> is reported and the function returns.\<close>

definition click_search_button :: "world \<Rightarrow> event list \<Rightarrow> unit run" where
  "click_search_button w tr =
     (case then_do (call w tr (WaitClickable SearchButton 20)) (\<lambda>button tr.
           then_do (call w tr (ScriptClick SearchButton)) (\<lambda>u tr.
           call w tr (WaitClickable ShowMoreByText 20))) of
        (Inl TimeoutException, tr') \<Rightarrow> (Inr (), tr')
      | r \<Rightarrow> r)"

text \<open>
  \<open>_click_show_more\<close>: the script click is the fallback for the two exceptions of the
  direct click, and every exception of the function makes it return \<open>False\<close>.
\<close>

definition click_show_more :: "world \<Rightarrow> event list \<Rightarrow> bool \<times> event list" where
  "click_show_more w tr =
     (case then_do (call w tr (WaitClickable ShowMoreButton 40)) (\<lambda>show_more_button tr.
           then_do (call w tr (ScrollIntoView ShowMoreButton)) (\<lambda>u tr.
             (case call w tr (Click ShowMoreButton) of
                (Inl ElementClickInterceptedException, tr') \<Rightarrow>
                  call w tr' (ScriptClick ShowMoreButton)
              | (Inl ElementNotInteractableException, tr') \<Rightarrow>
                  call w tr' (ScriptClick ShowMoreButton)
              | r \<Rightarrow> r))) of
        (Inl e, tr') \<Rightarrow> (False, tr')
      | (Inr u, tr') \<Rightarrow> (True, tr'))"

text \<open>
  The loop of \<open>extract_html\<close>.  Without \<open>max_clicks\<close> nothing bounds it, so its result is
  an option: \<open>None\<close> when it runs for ever, otherwise the final counter and session.
\<close>

partial_function (option) show_more_loop ::
    "world \<Rightarrow> int option \<Rightarrow> int \<Rightarrow> event list \<Rightarrow> (int \<times> event list) option" where
  "show_more_loop w max_clicks click_count tr =
     (if (case max_clicks of None \<Rightarrow> True | Some m \<Rightarrow> click_count < m) then
        (case click_show_more w tr of
           (clicked, tr') \<Rightarrow>
             if \<not> clicked then Some (click_count, tr')
             else show_more_loop w max_clicks (click_count + 1) tr')
      else Some (click_count, tr))"

text \<open>The body of the \<open>try\<close> statement of \<open>extract_html\<close>.\<close>

definition extract_html_body ::
    "world \<Rightarrow> string \<Rightarrow> string \<Rightarrow> int option \<Rightarrow> event list \<Rightarrow> string run option" where
  "extract_html_body w search_result_page city_string max_clicks tr =
     (case then_do (call w tr (Get search_result_page)) (\<lambda>u tr.
           then_do (set_location_filter w city_string tr) (\<lambda>u tr.
           click_search_button w tr)) of
        (Inl e, tr') \<Rightarrow> Some (Inl e, tr')
      | (Inr u, tr') \<Rightarrow>
          (case show_more_loop w max_clicks 0 tr' of
             None \<Rightarrow> None
           | Some (click_count, tr'') \<Rightarrow>
               Some (then_do (call w tr'' PageSource) (\<lambda>u tr. (Inr (page_source w tr''), tr)))))"

text \<open>
  \<open>extract_html\<close>: the driver is created before the \<open>try\<close>; the \<open>finally\<close> clause quits
  it whether the body returned or raised, and the result of the body is passed on.
\<close>

definition extract_html ::
    "world \<Rightarrow> string \<Rightarrow> string \<Rightarrow> int option \<Rightarrow> string run option" where
  "extract_html w search_result_page city_string max_clicks =
     (case call w [] NewChrome of
        (Inl e, tr) \<Rightarrow> Some (Inl e, tr)
      | (Inr driver, tr) \<Rightarrow>
          (case extract_html_body w search_result_page city_string max_clicks tr of
             None \<Rightarrow> None
           | Some (r, tr') \<Rightarrow> Some (r, tr' @ [Quit])))"

text \<open>\<open>main\<close> of the scraper: no handler stands between the two calls and the caller.\<close>

definition website_url :: string where
  "website_url = ''https://www.carousell.ph/categories/property-102/property-house-and-lot-for-sale-868/?addRecent=true&canChangeKeyword=true&includeSuggestions=true&searchId=-cgH4i&t-search_query_source=direct_search''"

definition main :: "world \<Rightarrow> (string \<Rightarrow> node) \<Rightarrow> (py_exn + string \<times> dataframe) option" where
  "main w lxml =
     (case extract_html w website_url ''Salcedo Village'' (Some 4) of
        None \<Rightarrow> None
      | Some (Inl e, tr) \<Rightarrow> Some (Inl e)
      | Some (Inr pages_html, tr) \<Rightarrow> Some (extract_listings lxml pages_html))"

section \<open>An invariant of the feature loop\<close>

text \<open>Bedrooms and bathrooms are empty or numeric.\<close>

definition rooms_numeric :: "features \<Rightarrow> bool" where
  "rooms_numeric st =
     ((bedrooms st = [] \<or> isdigit (bedrooms st)) \<and>
      (bathrooms st = [] \<or> isdigit (bathrooms st)))"

section \<open>Sample inputs\<close>



text \<open>Listing cards: one without anything in it, two with a price.\<close>

definition empty_card :: node where
  "empty_card = Tag ''div'' [(''data-testid'', ''listing-card-1'')] []"

definition attr_price_card :: node where
  "attr_price_card =
     Tag ''div'' [(''data-testid'', ''listing-card-2'')]
       [Tag ''span'' [(''title'', ''PHP 5,000'')] [NavigableString ''5k''],
        Tag ''span'' [] [NavigableString ''PHP 9'']]"


text \<open>
  Cards with a features region: one whose only value is a number without an icon, one
  with a bed icon, a number, an area and a remark.
\<close>

definition numeric_span :: node where
  "numeric_span = Tag ''span'' [(''title'', ''3'')] [NavigableString ''3'']"

definition numeric_card :: node where
  "numeric_card =
     Tag ''div'' [(''data-testid'', ''listing-card-4'')]
       [Tag ''div'' [(''class'', ''D_qc'')] [numeric_span]]"

definition area_span :: node where
  "area_span = Tag ''span'' [(''title'', ''45 sqm'')] []"

definition features_card :: node where
  "features_card =
     Tag ''div'' [(''data-testid'', ''listing-card-5'')]
       [Tag ''div'' [(''class'', ''D_x D_qc'')]
          [Tag ''img'' [(''src'', ''/img/ic_bed.svg'')] [],
           Tag ''span'' [(''title'', ''2'')] [],
           area_span,
           Tag ''span'' [(''title'', ''Furnished'')] []]]"

section \<open>Sessions as lists of calls\<close>

text \<open>\<open>appended A tr tr'\<close>: the session \<open>tr'\<close> continues \<open>tr\<close> with calls from \<open>A\<close> only.\<close>

definition appended :: "event set \<Rightarrow> event list \<Rightarrow> event list \<Rightarrow> bool" where
  "appended A tr tr' = (\<exists>evs. tr' = tr @ evs \<and> set evs \<subseteq> A)"

text \<open>The calls made before the loop: none quits, none is part of \<open>_click_show_more\<close>.\<close>

definition prelude_events :: "event set" where
  "prelude_events = {e. e \<noteq> Quit \<and> e \<noteq> Click ShowMoreButton \<and>
                        e \<noteq> WaitClickable ShowMoreButton 40}"

text \<open>
  What the loop has done when it returns \<open>y\<close>: the counter has not decreased, the
  session was continued without quitting, and with a bound \<open>n\<close> the counter is at most
  \<open>n\<close> (or unchanged, when it was above) and at most \<open>n - click_count\<close> waits and direct
  clicks were made.
\<close>

definition loop_result ::
    "world \<Rightarrow> int option \<Rightarrow> int \<Rightarrow> event list \<Rightarrow> int \<times> event list \<Rightarrow> bool" where
  "loop_result w max_clicks click_count tr y =
     (click_count \<le> fst y \<and>
      (\<exists>evs. snd y = tr @ evs \<and> Quit \<notin> set evs \<and>
        (\<forall>n. max_clicks = Some n \<longrightarrow>
           fst y \<le> max click_count n \<and>
           count_list evs (Click ShowMoreButton) \<le> nat (n - click_count) \<and>
           count_list evs (WaitClickable ShowMoreButton 40) \<le> nat (n - click_count))))"

text \<open>The session after the filter was set and the search started, every call returning.\<close>

definition setup_trace :: "string \<Rightarrow> string \<Rightarrow> event list" where
  "setup_trace url city =
     [NewChrome, Get url, WaitVisible LocationInput 10, Clear LocationInput,
      SendKeys LocationInput city, WaitClickable (FilterLabel city) 10,
      ScriptClick (FilterLabel city), WaitClickable SearchButton 20,
      ScriptClick SearchButton, WaitClickable ShowMoreByText 20]"

text \<open>
  Two environments: in the first the button for more results is never clickable, in the
  second the label of the location filter is never clickable; every other call returns.
\<close>

definition never_world :: world where
  "never_world =
     \<lparr>outcome = (\<lambda>tr e. if e = WaitClickable ShowMoreButton 40
                            then Some TimeoutException else None),
      page_source = (\<lambda>tr. '''')\<rparr>"

definition filter_fail_world :: world where
  "filter_fail_world =
     \<lparr>outcome = (\<lambda>tr e. if e = WaitClickable (FilterLabel ''Salcedo Village'') 10
                            then Some TimeoutException else None),
      page_source = (\<lambda>tr. '''')\<rparr>"

text \<open>A parser that finds no listing in empty markup and two listings in any other.\<close>

definition sample_lxml :: "string \<Rightarrow> node" where
  "sample_lxml html =
     (if html = '''' then Tag ''[document]'' [] []
      else Tag ''[document]'' []
             [Tag ''html'' []
                [Tag ''head'' [] [Tag ''title'' [] [NavigableString '' Listings '']],
                 Tag ''body'' [] [empty_card, Tag ''p'' [] [], attr_price_card]]])"

section \<open>Properties of the normalisation\<close>

lemma split1_first: "sep \<notin> set a \<Longrightarrow> split1 sep (a @ sep # b) = [a, b]"
  by (induction a) auto

lemma split_response_pieces:
  "split_response s =
     [takeWhile (\<lambda>c. c \<noteq> CHR ''|'') s, tl (dropWhile (\<lambda>c. c \<noteq> CHR ''|'') s)]"
proof (cases "CHR ''|'' \<in> set s")
  case True
  then obtain a b where s: "s = a @ CHR ''|'' # b" and a: "CHR ''|'' \<notin> set a"
    by (meson split_list_first)
  have "takeWhile (\<lambda>c. c \<noteq> CHR ''|'') s = a" using s a by (auto simp: takeWhile_tail)
  moreover have "dropWhile (\<lambda>c. c \<noteq> CHR ''|'') s = CHR ''|'' # b" using s a
    by (auto simp: dropWhile_append3)
  ultimately show ?thesis using s a by (simp add: split_response_def split1_first)
next
  case False
  then have tw: "takeWhile (\<lambda>c. c \<noteq> CHR ''|'') s = s"
    and dw: "dropWhile (\<lambda>c. c \<noteq> CHR ''|'') s = []"
    by auto
  show ?thesis using False by (simp add: split_response_def tw dw)
qed

lemma frame_width_split_response:
  "frame_width (map split_response xs) = (if xs = [] then 0 else 2)"
  by (induction xs) (auto simp: frame_width_def split_response_pieces)

text \<open>
  C2.  The response is split at its first pipe only: with a pipe, the building name is
  the text before the first pipe and the transaction type is everything after it, later
  pipes included; without a pipe, the building name is the whole response and the
  transaction type is empty.  The response \<open>|lease\<close> gives an empty building name and
  the transaction type \<open>lease\<close>.  The two pieces are what the assignment stores under
  \<open>building\<close> and \<open>trans_type\<close>.
\<close>

theorem split_response_first_pipe:
  "(CHR ''|'' \<notin> set a \<longrightarrow> split_response (a @ CHR ''|'' # b) = [a, b]) \<and>
   (CHR ''|'' \<notin> set s \<longrightarrow> split_response s = [s, '''']) \<and>
   split_response ''|lease'' = ['''', ''lease''] \<and>
   assign_building_trans_type [r] [split_response t] =
     Inr [AList.update ''trans_type'' (tl (dropWhile (\<lambda>c. c \<noteq> CHR ''|'') t))
            (AList.update ''building'' (takeWhile (\<lambda>c. c \<noteq> CHR ''|'') t) r)]"
proof -
  have "assign_building_trans_type [r] [split_response t] =
     Inr [AList.update ''trans_type'' (tl (dropWhile (\<lambda>c. c \<noteq> CHR ''|'') t))
            (AList.update ''building'' (takeWhile (\<lambda>c. c \<noteq> CHR ''|'') t) r)]"
    using frame_width_split_response [of "[t]"]
    by (simp add: assign_building_trans_type_def split_response_pieces)
  then show ?thesis by (auto simp: split_response_def split1_first)
qed

theorem split_response_first_pipe_witness:
  "CHR ''|'' \<notin> set ''Tower'' \<and>
   split_response ''Tower|sale|rent'' = [''Tower'', ''sale|rent''] \<and>
   CHR ''|'' \<notin> set ''Tower sale'' \<and>
   split_response ''Tower sale'' = [''Tower sale'', ''''] \<and>
   assign_building_trans_type [[(''title'', ''x'')]] [split_response ''A|rent''] =
     Inr [[(''title'', ''x''), (''building'', ''A''), (''trans_type'', ''rent'')]]"
  using split_response_first_pipe
    [of "''Tower''" "''sale|rent''" "''Tower sale''" "[(''title'', ''x'')]" "''A|rent''"]
  by simp






section \<open>Properties of the extraction of one card\<close>

lemma bs_find_SomeD: "bs_find P t = Some r \<Longrightarrow> P r"
  unfolding bs_find_def bs_find_all_def by (auto split: list.splits simp: filter_eq_Cons_iff)

lemma bs_find_None_iff: "bs_find P t = None \<longleftrightarrow> bs_find_all P t = []"
  unfolding bs_find_def by (auto split: list.splits)

lemma getitem_has_attr: "has_attr key t \<Longrightarrow> getitem t key = Inr (get_or t key '''')"
  by (auto simp: has_attr_def getitem_def get_or_def)

lemma startswith_Nil [simp]: "startswith [] (c # cs) = False"
  by (simp add: startswith_def)

lemma extract_title_Inr: "\<exists>v. extract_title listing title = Inr v"
  by (auto simp: extract_title_def p_with_title_def getitem_has_attr
      split: option.splits dest!: bs_find_SomeD)

lemma span_titled_php_has: "span_titled_php t \<Longrightarrow> has_attr ''title'' t"
  by (auto simp: span_titled_php_def has_attr_def get_or_def split: option.splits)

lemma extract_price_Inr: "\<exists>v. extract_price listing price = Inr v"
  by (auto simp: extract_price_def getitem_has_attr
      split: option.splits dest!: bs_find_SomeD span_titled_php_has)

lemma feature_step_Inr:
  "span_with_title (fst sp) \<Longrightarrow> \<exists>st'. feature_step st sp = Inr st'"
  by (cases sp)
     (auto simp: feature_step_def span_with_title_def bind_exn_def getitem_has_attr
        split: option.splits)

lemma feature_loop_Inr:
  "\<forall>sp\<in>set sps. span_with_title (fst sp) \<Longrightarrow> \<exists>st'. feature_loop st sps = Inr st'"
proof (induction sps arbitrary: st)
  case Nil
  then show ?case by simp
next
  case (Cons sp sps)
  then obtain st1 where "feature_step st sp = Inr st1"
    using feature_step_Inr [of sp st] by auto
  with Cons show ?case by (simp add: bind_exn_def)
qed

lemma extract_features_Inr: "\<exists>st'. extract_features listing st = Inr st'"
  by (auto simp: extract_features_def feature_spans_of_def intro!: feature_loop_Inr
      split: option.splits)

lemma extract_image_url_Inr: "\<exists>v. extract_image_url listing = Inr v"
  by (auto simp: extract_image_url_def img_alt_src_def getitem_has_attr
      split: option.splits dest!: bs_find_SomeD)

lemma attr_contains_has: "attr_contains key m t \<Longrightarrow> has_attr key t"
  by (auto simp: attr_contains_def has_attr_def split: option.splits)

lemma extract_link_Inr: "\<exists>v. extract_link listing = Inr v"
  by (auto simp: extract_link_def a_href_def getitem_has_attr bind_exn_def
      split: option.splits dest!: bs_find_SomeD)

lemma extract_seller_profile_Inr: "\<exists>v. extract_seller_profile listing = Inr v"
  by (auto simp: extract_seller_profile_def a_seller_def getitem_has_attr bind_exn_def
      split: option.splits dest!: bs_find_SomeD attr_contains_has)

lemma extract_from_card_shape:
  "\<exists>title price f image_url link seller_profile.
     extract_title listing '''' = Inr title \<and>
     extract_price listing '''' = Inr price \<and>
     extract_features listing \<lparr>bedrooms = '''', bathrooms = '''', size_s = '''', remarks = ''''\<rparr> = Inr f \<and>
     extract_image_url listing = Inr image_url \<and>
     extract_link listing = Inr link \<and>
     extract_seller_profile listing = Inr seller_profile \<and>
     extract_from_card listing =
       Inr [(''title'', title), (''price'', price), (''bedrooms'', bedrooms f),
            (''bathrooms'', bathrooms f), (''size'', size_s f), (''location'', ''''),
            (''remarks'', remarks f), (''image_url'', image_url), (''listing_url'', link),
            (''seller_profile'', seller_profile),
            (''seller_name'', extract_seller_name listing),
            (''likes'', extract_likes listing),
            (''days_ago'', extract_days_ago listing)]"
proof -
  obtain title where 1: "extract_title listing '''' = Inr title"
    using extract_title_Inr by blast
  obtain price where 2: "extract_price listing '''' = Inr price"
    using extract_price_Inr by blast
  obtain f where 3: "extract_features listing \<lparr>bedrooms = '''', bathrooms = '''', size_s = '''', remarks = ''''\<rparr> = Inr f"
    using extract_features_Inr by blast
  obtain image_url where 4: "extract_image_url listing = Inr image_url"
    using extract_image_url_Inr by blast
  obtain link where 5: "extract_link listing = Inr link"
    using extract_link_Inr by blast
  obtain seller_profile where 6: "extract_seller_profile listing = Inr seller_profile"
    using extract_seller_profile_Inr by blast
  show ?thesis using 1 2 3 4 5 6
    by (simp add: extract_from_card_def bind_exn_def)
qed





text \<open>
  C10.  The record of every card has the key \<open>location\<close>, and its value is the empty
  string: the variable is initialised and never assigned.
\<close>

theorem extract_from_card_location_empty:
  "\<exists>d. extract_from_card listing = Inr d \<and> map_of d ''location'' = Some []"
  using extract_from_card_shape [of listing] by auto

lemma startswith_prefix: "startswith s pre \<longleftrightarrow> prefix pre s"
  unfolding startswith_def prefix_def
  by (metis append_eq_conv_conj append_take_drop_id)

lemma str_in_sublist: "str_in sub s \<longleftrightarrow> sublist sub s"
  by (induction s) (auto simp: startswith_prefix sublist_Cons_right)














lemma isdigit_no_sqm: "isdigit v \<Longrightarrow> \<not> str_in ''sqm'' v"
proof
  assume d: "isdigit v" and s: "str_in ''sqm'' v"
  from s have "sublist ''sqm'' v" unfolding str_in_sublist .
  then have "set ''sqm'' \<subseteq> set v" by (rule set_mono_sublist)
  then have m: "CHR ''s'' \<in> set v" by simp
  from d have "\<forall>c\<in>set v. is_digit c" unfolding isdigit_def list_all_iff by blast
  with m have "is_digit CHR ''s''" by blast
  then show False by (simp add: is_digit_def)
qed

lemma feature_loop_append:
  "feature_loop st (xs @ ys) = bind_exn (feature_loop st xs) (\<lambda>st'. feature_loop st' ys)"
  by (induction xs arbitrary: st) (auto simp: bind_exn_def split: sum.splits)

lemma feature_step_dropped:
  assumes "get_attr span ''title'' = Some v" and "isdigit v"
    and "case find_previous_sibling ''img'' prev of
           None \<Rightarrow> True
         | Some prev_img \<Rightarrow> \<not> str_in ''ic_bed.svg'' (get_or prev_img ''src'' '''') \<and>
                            \<not> str_in ''ic_bath.svg'' (get_or prev_img ''src'' '''')"
  shows "feature_step st (span, prev) = Inr st"
  using assms isdigit_no_sqm [OF assms(2)]
  by (auto simp: feature_step_def getitem_def bind_exn_def split: option.splits)

text \<open>
  C1, as amended.  A feature value that is purely numeric and whose nearest previous
  \<open>img\<close> sibling is missing, or is neither the bed nor the bath icon, is assigned to
  no field: the iteration leaves bedrooms, bathrooms, size and remarks as they were, and
  the loop gives the same result as without that span.
\<close>

theorem numeric_without_icon_dropped:
  assumes "get_attr span ''title'' = Some v" and "isdigit v"
    and "case find_previous_sibling ''img'' prev of
           None \<Rightarrow> True
         | Some prev_img \<Rightarrow> \<not> str_in ''ic_bed.svg'' (get_or prev_img ''src'' '''') \<and>
                            \<not> str_in ''ic_bath.svg'' (get_or prev_img ''src'' '''')"
  shows "feature_step st (span, prev) = Inr st \<and>
         feature_loop st0 (before @ (span, prev) # after) = feature_loop st0 (before @ after)"
proof -
  have s: "feature_step st' (span, prev) = Inr st'" for st'
    using assms by (rule feature_step_dropped)
  have "feature_loop st0 (before @ (span, prev) # after) = feature_loop st0 (before @ after)"
    by (simp add: feature_loop_append s bind_exn_def)
  with s show ?thesis by simp
qed

theorem numeric_without_icon_dropped_witness:
  "get_attr numeric_span ''title'' = Some ''3'' \<and> isdigit ''3'' \<and>
   find_previous_sibling ''img'' [] = None \<and>
   feature_step \<lparr>bedrooms = '''', bathrooms = '''', size_s = '''', remarks = ''''\<rparr>
     (numeric_span, []) =
     Inr \<lparr>bedrooms = '''', bathrooms = '''', size_s = '''', remarks = ''''\<rparr> \<and>
   feature_loop \<lparr>bedrooms = '''', bathrooms = '''', size_s = '''', remarks = ''''\<rparr>
     ([] @ (numeric_span, []) # []) =
   feature_loop \<lparr>bedrooms = '''', bathrooms = '''', size_s = '''', remarks = ''''\<rparr> ([] @ [])"
proof -
  have 1: "get_attr numeric_span ''title'' = Some ''3''" by (simp add: numeric_span_def)
  have 2: "isdigit ''3''" by (simp add: isdigit_def is_digit_def)
  have 3: "find_previous_sibling ''img'' [] = None" by (simp add: find_previous_sibling_def)
  have 4: "case find_previous_sibling ''img'' [] of
           None \<Rightarrow> True
         | Some prev_img \<Rightarrow> \<not> str_in ''ic_bed.svg'' (get_or prev_img ''src'' '''') \<and>
                            \<not> str_in ''ic_bath.svg'' (get_or prev_img ''src'' '''')"
    by (simp add: 3)
  from numeric_without_icon_dropped [OF 1 2 4] 1 2 3 show ?thesis by blast
qed

text \<open>
  The claim as stated fails: the card whose features region holds the single value \<open>3\<close>
  without an icon gives a record whose remarks are empty, and the value is in no field.
\<close>

theorem numeric_without_icon_counterexample:
  "extract_from_card numeric_card =
     Inr [(''title'', ''''), (''price'', ''''), (''bedrooms'', ''''), (''bathrooms'', ''''),
          (''size'', ''''), (''location'', ''''), (''remarks'', ''''), (''image_url'', ''''),
          (''listing_url'', ''''), (''seller_profile'', ''''), (''seller_name'', ''''),
          (''likes'', ''0''), (''days_ago'', '''')]"
proof -
  have d: "descendants numeric_card =
             [Tag ''div'' [(''class'', ''D_qc'')] [numeric_span], numeric_span,
              NavigableString ''3'']"
    by (simp add: descendants_def numeric_card_def numeric_span_def)
  have t: "extract_title numeric_card '''' = Inr ''''"
    by (simp add: extract_title_def bs_find_def bs_find_all_def d numeric_span_def
        p_with_title_def)
  have p: "extract_price numeric_card '''' = Inr ''''"
    by (simp add: extract_price_def bs_find_def bs_find_all_def d numeric_span_def
        span_titled_php_def get_or_def startswith_def strip_def is_space_def)
  have fd: "bs_find features_div_filter numeric_card =
              Some (Tag ''div'' [(''class'', ''D_qc'')] [numeric_span])"
    by (simp add: bs_find_def bs_find_all_def d numeric_span_def features_div_filter_def
        attr_contains_def startswith_def)
  have fs: "feature_spans_of (Tag ''div'' [(''class'', ''D_qc'')] [numeric_span]) =
              [(numeric_span, [])]"
    by (simp add: feature_spans_of_def numeric_span_def span_with_title_def has_attr_def)
  have st: "feature_step \<lparr>bedrooms = '''', bathrooms = '''', size_s = '''', remarks = ''''\<rparr>
               (numeric_span, []) =
            Inr \<lparr>bedrooms = '''', bathrooms = '''', size_s = '''', remarks = ''''\<rparr>"
    by (simp add: feature_step_def numeric_span_def getitem_def bind_exn_def startswith_def
        isdigit_def is_digit_def find_previous_sibling_def)
  have f: "extract_features numeric_card
             \<lparr>bedrooms = '''', bathrooms = '''', size_s = '''', remarks = ''''\<rparr> =
           Inr \<lparr>bedrooms = '''', bathrooms = '''', size_s = '''', remarks = ''''\<rparr>"
    by (simp add: extract_features_def fd fs st bind_exn_def)
  have i: "extract_image_url numeric_card = Inr ''''"
    by (simp add: extract_image_url_def bs_find_def bs_find_all_def d numeric_span_def
        img_alt_src_def)
  have l: "extract_link numeric_card = Inr ''''"
    by (simp add: extract_link_def bs_find_def bs_find_all_def d numeric_span_def a_href_def)
  have s: "extract_seller_profile numeric_card = Inr ''''"
    by (simp add: extract_seller_profile_def bs_find_def bs_find_all_def d numeric_span_def
        a_seller_def)
  have n: "extract_seller_name numeric_card = ''''"
    by (simp add: extract_seller_name_def bs_find_def bs_find_all_def d numeric_span_def
        p_seller_name_def)
  have k: "extract_likes numeric_card = ''0''"
    by (simp add: extract_likes_def bs_find_def bs_find_all_def d numeric_span_def
        button_like_def)
  have a: "extract_days_ago numeric_card = ''''"
    by (simp add: extract_days_ago_def bs_find_def bs_find_all_def d numeric_span_def
        p_days_ago_def)
  show ?thesis
    by (simp add: extract_from_card_def t p f i l s n k a bind_exn_def)
qed

lemma feature_step_sqm:
  "get_attr span ''title'' = Some v \<Longrightarrow> str_in ''sqm'' v \<Longrightarrow>
     feature_step st (span, prev) = Inr (st\<lparr>size_s := v\<rparr>)"
  by (simp add: feature_step_def getitem_def bind_exn_def)

lemma feature_step_rooms:
  "feature_step st sp = Inr st' \<Longrightarrow> rooms_numeric st \<Longrightarrow> rooms_numeric st'"
  by (cases sp)
     (auto simp: feature_step_def getitem_def bind_exn_def rooms_numeric_def
        split: option.splits if_splits)

lemma feature_loop_rooms:
  "feature_loop st sps = Inr st' \<Longrightarrow> rooms_numeric st \<Longrightarrow> rooms_numeric st'"
proof (induction sps arbitrary: st)
  case Nil
  then show ?case by simp
next
  case (Cons sp sps)
  from Cons.prems(1) obtain st1 where 1: "feature_step st sp = Inr st1"
    and 2: "feature_loop st1 sps = Inr st'"
    by (auto simp: bind_exn_def split: sum.splits)
  from feature_step_rooms [OF 1 Cons.prems(2)] Cons.IH [OF 2] show ?case by simp
qed

lemma not_sqm_rooms: "x = [] \<or> isdigit x \<Longrightarrow> \<not> str_in ''sqm'' x"
  using isdigit_no_sqm by auto

lemma feature_step_size_kept:
  "feature_step st sp = Inr st' \<Longrightarrow> \<not> str_in ''sqm'' (get_or (fst sp) ''title'' '''') \<Longrightarrow>
     size_s st' = size_s st"
  by (cases sp)
     (auto simp: feature_step_def getitem_def get_or_def bind_exn_def
        split: option.splits if_splits)

lemma feature_loop_size_kept:
  "feature_loop st sps = Inr st' \<Longrightarrow>
   list_all (\<lambda>sp. \<not> str_in ''sqm'' (get_or (fst sp) ''title'' '''')) sps \<Longrightarrow>
     size_s st' = size_s st"
proof (induction sps arbitrary: st)
  case Nil
  then show ?case by simp
next
  case (Cons sp sps)
  from Cons.prems(1) obtain st1 where 1: "feature_step st sp = Inr st1"
    and 2: "feature_loop st1 sps = Inr st'"
    by (auto simp: bind_exn_def split: sum.splits)
  from Cons.prems(2) have a: "\<not> str_in ''sqm'' (get_or (fst sp) ''title'' '''')"
    and b: "list_all (\<lambda>sp. \<not> str_in ''sqm'' (get_or (fst sp) ''title'' '''')) sps"
    by simp_all
  from feature_step_size_kept [OF 1 a] Cons.IH [OF 2 b] show ?case by simp
qed

lemma feature_spans_titled: "sp \<in> set (feature_spans_of t) \<Longrightarrow> span_with_title (fst sp)"
  by (simp add: feature_spans_of_def)

lemma feature_loop_last_sqm:
  assumes all: "\<forall>sp\<in>set (before @ (span, prev) # after). span_with_title (fst sp)"
    and v: "get_attr span ''title'' = Some v" and sqm: "str_in ''sqm'' v"
    and after: "list_all (\<lambda>sp. \<not> str_in ''sqm'' (get_or (fst sp) ''title'' '''')) after"
  shows "\<exists>st'. feature_loop st (before @ (span, prev) # after) = Inr st' \<and> size_s st' = v"
proof -
  from all have "\<forall>sp\<in>set before. span_with_title (fst sp)" by simp
  from feature_loop_Inr [OF this] obtain s1 where 1: "feature_loop st before = Inr s1"
    by blast
  from all have "\<forall>sp\<in>set after. span_with_title (fst sp)" by simp
  from feature_loop_Inr [OF this] obtain s3
    where 3: "feature_loop (s1\<lparr>size_s := v\<rparr>) after = Inr s3" by blast
  from feature_loop_size_kept [OF 3 after] have "size_s s3 = v" by simp
  moreover have "feature_loop st (before @ (span, prev) # after) = Inr s3"
    by (simp add: feature_loop_append 1 bind_exn_def feature_step_sqm [OF v sqm] 3)
  ultimately show ?thesis by blast
qed

text \<open>
  C7.  A feature value that contains \<open>sqm\<close> is assigned to size and to nothing else,
  whatever its previous siblings are (a value with \<open>sqm\<close> is never purely numeric).
  In the record of every card, bedrooms and bathrooms do not contain \<open>sqm\<close>, and the
  size is the last value with \<open>sqm\<close> among the titled spans of the features region.
\<close>

theorem sqm_value_is_size:
  "(get_attr span ''title'' = Some v \<and> str_in ''sqm'' v \<longrightarrow>
      feature_step st (span, prev) = Inr (st\<lparr>size_s := v\<rparr>)) \<and>
   (\<exists>d b t. extract_from_card listing = Inr d \<and>
      map_of d ''bedrooms'' = Some b \<and> map_of d ''bathrooms'' = Some t \<and>
      \<not> str_in ''sqm'' b \<and> \<not> str_in ''sqm'' t) \<and>
   (bs_find features_div_filter listing = Some features_div \<and>
    feature_spans_of features_div = before @ (span, prev) # after \<and>
    get_attr span ''title'' = Some v \<and> str_in ''sqm'' v \<and>
    list_all (\<lambda>sp. \<not> str_in ''sqm'' (get_or (fst sp) ''title'' '''')) after \<longrightarrow>
      (\<exists>d. extract_from_card listing = Inr d \<and> map_of d ''size'' = Some v))"
proof -
  from extract_from_card_shape [of listing]
  obtain title price f image_url link seller_profile where
    f: "extract_features listing
          \<lparr>bedrooms = '''', bathrooms = '''', size_s = '''', remarks = ''''\<rparr> = Inr f" and
    d: "extract_from_card listing =
       Inr [(''title'', title), (''price'', price), (''bedrooms'', bedrooms f),
            (''bathrooms'', bathrooms f), (''size'', size_s f), (''location'', ''''),
            (''remarks'', remarks f), (''image_url'', image_url), (''listing_url'', link),
            (''seller_profile'', seller_profile),
            (''seller_name'', extract_seller_name listing),
            (''likes'', extract_likes listing),
            (''days_ago'', extract_days_ago listing)]"
    by blast
  have init: "rooms_numeric \<lparr>bedrooms = '''', bathrooms = '''', size_s = '''', remarks = ''''\<rparr>"
    by (simp add: rooms_numeric_def)
  have "rooms_numeric f"
  proof (cases "bs_find features_div_filter listing")
    case None
    with f init show ?thesis by (simp add: extract_features_def)
  next
    case (Some features_div)
    with f have "feature_loop
        \<lparr>bedrooms = '''', bathrooms = '''', size_s = '''', remarks = ''''\<rparr>
        (feature_spans_of features_div) = Inr f"
      by (simp add: extract_features_def)
    from feature_loop_rooms [OF this init] show ?thesis .
  qed
  then have r: "\<not> str_in ''sqm'' (bedrooms f)" "\<not> str_in ''sqm'' (bathrooms f)"
    by (simp_all add: rooms_numeric_def not_sqm_rooms)
  have 1: "feature_step st (span, prev) = Inr (st\<lparr>size_s := v\<rparr>)"
    if "get_attr span ''title'' = Some v" "str_in ''sqm'' v"
    using that by (rule feature_step_sqm)
  have 2: "\<exists>d b t. extract_from_card listing = Inr d \<and>
      map_of d ''bedrooms'' = Some b \<and> map_of d ''bathrooms'' = Some t \<and>
      \<not> str_in ''sqm'' b \<and> \<not> str_in ''sqm'' t"
    unfolding d using r by simp
  have 3: "\<exists>d. extract_from_card listing = Inr d \<and> map_of d ''size'' = Some v"
    if fd: "bs_find features_div_filter listing = Some features_div"
      and sp: "feature_spans_of features_div = before @ (span, prev) # after"
      and v: "get_attr span ''title'' = Some v" and sqm: "str_in ''sqm'' v"
      and after: "list_all (\<lambda>sp. \<not> str_in ''sqm'' (get_or (fst sp) ''title'' '''')) after"
  proof -
    have all: "\<forall>sp\<in>set (before @ (span, prev) # after). span_with_title (fst sp)"
      using feature_spans_titled [of _ features_div] unfolding sp by blast
    from feature_loop_last_sqm [OF all v sqm after]
    obtain st' where l: "feature_loop
        \<lparr>bedrooms = '''', bathrooms = '''', size_s = '''', remarks = ''''\<rparr>
        (before @ (span, prev) # after) = Inr st'" and s: "size_s st' = v"
      by blast
    from f fd sp l have "f = st'" by (simp add: extract_features_def)
    with s show ?thesis unfolding d by simp
  qed
  show ?thesis
    apply (intro conjI impI)
      apply (erule conjE, erule (1) 1)
     apply (rule 2)
    apply (elim conjE, erule (4) 3)
    done
qed

theorem sqm_value_is_size_witness:
  "get_attr area_span ''title'' = Some ''45 sqm'' \<and> str_in ''sqm'' ''45 sqm'' \<and>
   feature_step \<lparr>bedrooms = '''', bathrooms = '''', size_s = '''', remarks = ''''\<rparr>
     (area_span, [Tag ''span'' [(''title'', ''2'')] [], Tag ''img'' [(''src'', ''/img/ic_bed.svg'')] []]) =
     Inr \<lparr>bedrooms = '''', bathrooms = '''', size_s = ''45 sqm'', remarks = ''''\<rparr> \<and>
   (\<exists>d. extract_from_card features_card = Inr d \<and> map_of d ''size'' = Some ''45 sqm'')"
proof -
  let ?div = "Tag ''div'' [(''class'', ''D_x D_qc'')]
          [Tag ''img'' [(''src'', ''/img/ic_bed.svg'')] [],
           Tag ''span'' [(''title'', ''2'')] [],
           area_span,
           Tag ''span'' [(''title'', ''Furnished'')] []]"
  let ?prev = "[Tag ''span'' [(''title'', ''2'')] [], Tag ''img'' [(''src'', ''/img/ic_bed.svg'')] []]"
  have 1: "get_attr area_span ''title'' = Some ''45 sqm''" by (simp add: area_span_def)
  have 2: "str_in ''sqm'' ''45 sqm''" by (simp add: startswith_def)
  have fd: "bs_find features_div_filter features_card = Some ?div"
    by (simp add: bs_find_def bs_find_all_def descendants_def features_card_def area_span_def
        features_div_filter_def attr_contains_def startswith_def)
  have sp: "feature_spans_of ?div =
      [(Tag ''span'' [(''title'', ''2'')] [], [Tag ''img'' [(''src'', ''/img/ic_bed.svg'')] []])]
      @ (area_span, ?prev) #
      [(Tag ''span'' [(''title'', ''Furnished'')] [],
        [area_span, Tag ''span'' [(''title'', ''2'')] [], Tag ''img'' [(''src'', ''/img/ic_bed.svg'')] []])]"
    by (simp add: feature_spans_of_def area_span_def span_with_title_def has_attr_def)
  have af: "list_all (\<lambda>sp. \<not> str_in ''sqm'' (get_or (fst sp) ''title'' ''''))
      [(Tag ''span'' [(''title'', ''Furnished'')] [],
        [area_span, Tag ''span'' [(''title'', ''2'')] [], Tag ''img'' [(''src'', ''/img/ic_bed.svg'')] []])]"
    by (simp add: get_or_def startswith_def)
  note t = sqm_value_is_size [of area_span "''45 sqm''"
      "\<lparr>bedrooms = '''', bathrooms = '''', size_s = '''', remarks = ''''\<rparr>" ?prev
      features_card ?div
      "[(Tag ''span'' [(''title'', ''2'')] [], [Tag ''img'' [(''src'', ''/img/ic_bed.svg'')] []])]"
      "[(Tag ''span'' [(''title'', ''Furnished'')] [],
        [area_span, Tag ''span'' [(''title'', ''2'')] [], Tag ''img'' [(''src'', ''/img/ic_bed.svg'')] []])]"]
  from t [THEN conjunct1] 1 2
  have a0: "feature_step \<lparr>bedrooms = '''', bathrooms = '''', size_s = '''', remarks = ''''\<rparr>
     (area_span, ?prev) =
     Inr (\<lparr>bedrooms = '''', bathrooms = '''', size_s = '''', remarks = ''''\<rparr>
            \<lparr>size_s := ''45 sqm''\<rparr>)"
    by blast
  then have a: "feature_step \<lparr>bedrooms = '''', bathrooms = '''', size_s = '''', remarks = ''''\<rparr>
     (area_span, ?prev) =
     Inr \<lparr>bedrooms = '''', bathrooms = '''', size_s = ''45 sqm'', remarks = ''''\<rparr>"
    by simp
  from t [THEN conjunct2, THEN conjunct2] fd sp af 1 2
  have b: "\<exists>d. extract_from_card features_card = Inr d \<and> map_of d ''size'' = Some ''45 sqm''"
    by blast
  from 1 2 a b show ?thesis by blast
qed

section \<open>Properties of the browser session\<close>

lemma appended_refl: "appended A tr tr"
  by (simp add: appended_def)

lemma appended_trans: "appended A tr tr1 \<Longrightarrow> appended A tr1 tr2 \<Longrightarrow> appended A tr tr2"
  unfolding appended_def by (metis append.assoc le_sup_iff set_append)

lemma appended_call: "e \<in> A \<Longrightarrow> appended A tr (snd (call w tr e))"
  by (simp add: call_def appended_def)

lemma appended_then_do:
  assumes "appended A tr (snd m)" and "\<And>x t. appended A t (snd (f x t))"
  shows "appended A tr (snd (then_do m f))"
proof (cases m)
  case (Pair r t)
  show ?thesis
  proof (cases r)
    case (Inl e)
    with Pair assms(1) show ?thesis by (simp add: then_do_def)
  next
    case (Inr x)
    with Pair assms(1) assms(2) [of t x] show ?thesis
      by (auto simp: then_do_def intro: appended_trans)
  qed
qed

lemma snd_reraise:
  "snd (case m of (Inl TimeoutException, tr') \<Rightarrow> (a, tr') | r \<Rightarrow> r) = snd m"
  by (auto split: prod.splits sum.splits py_exn.splits)

lemma set_location_filter_appended:
  "appended prelude_events tr (snd (set_location_filter w location tr))"
  unfolding set_location_filter_def click_checkbox_by_label_def snd_reraise
  by (intro appended_then_do appended_call) (simp_all add: prelude_events_def)

lemma click_search_button_appended:
  "appended prelude_events tr (snd (click_search_button w tr))"
  unfolding click_search_button_def snd_reraise
  by (intro appended_then_do appended_call) (simp_all add: prelude_events_def)

lemma prelude_appended:
  "appended prelude_events tr
     (snd (then_do (call w tr (Get url)) (\<lambda>u tr.
           then_do (set_location_filter w city tr) (\<lambda>u tr. click_search_button w tr))))"
  by (intro appended_then_do appended_call set_location_filter_appended
        click_search_button_appended) (simp add: prelude_events_def)

lemma click_show_more_cases:
  "\<exists>b evs. click_show_more w tr = (b, tr @ evs) \<and>
     (evs = [WaitClickable ShowMoreButton 40] \<or>
      evs = [WaitClickable ShowMoreButton 40, ScrollIntoView ShowMoreButton] \<or>
      evs = [WaitClickable ShowMoreButton 40, ScrollIntoView ShowMoreButton,
             Click ShowMoreButton] \<or>
      evs = [WaitClickable ShowMoreButton 40, ScrollIntoView ShowMoreButton,
             Click ShowMoreButton, ScriptClick ShowMoreButton])"
  by (auto simp: click_show_more_def then_do_def call_def
      split: option.splits py_exn.splits)

lemma click_show_more_counts:
  assumes "click_show_more w tr = (b, tr')"
  shows "\<exists>evs. tr' = tr @ evs \<and> Quit \<notin> set evs \<and>
           count_list evs (Click ShowMoreButton) \<le> 1 \<and>
           count_list evs (WaitClickable ShowMoreButton 40) \<le> 1"
  using click_show_more_cases [of w tr] assms by auto

lemma show_more_loop_trace:
  assumes "show_more_loop w0 max_clicks0 click_count0 tr0 = Some y0"
  shows "loop_result w0 max_clicks0 click_count0 tr0 y0"
proof (rule show_more_loop.raw_induct [where P = loop_result, OF _ assms])
  fix loop w max_clicks click_count tr y
  assume IH: "\<And>w max_clicks click_count tr y.
      loop w max_clicks click_count tr = Some y \<Longrightarrow> loop_result w max_clicks click_count tr y"
  assume eq: "(if case max_clicks of None \<Rightarrow> True | Some m \<Rightarrow> click_count < m
      then case click_show_more w tr of
           (clicked, tr') \<Rightarrow>
             if \<not> clicked then Some (click_count, tr')
             else loop w max_clicks (click_count + 1) tr'
      else Some (click_count, tr)) = Some y"
  note 1 = IH eq
  have "click_count \<le> fst y \<and>
     (\<exists>evs. snd y = tr @ evs \<and> Quit \<notin> set evs \<and>
        (\<forall>n. max_clicks = Some n \<longrightarrow>
           fst y \<le> max click_count n \<and>
           count_list evs (Click ShowMoreButton) \<le> nat (n - click_count) \<and>
           count_list evs (WaitClickable ShowMoreButton 40) \<le> nat (n - click_count)))"
  proof (cases "case max_clicks of None \<Rightarrow> True | Some m \<Rightarrow> click_count < m")
    case False
    with 1(2) have "y = (click_count, tr)" by simp
    then show ?thesis by simp
  next
    case True
    obtain clicked tr1 where c: "click_show_more w tr = (clicked, tr1)"
      by (cases "click_show_more w tr")
    from click_show_more_counts [OF c] obtain evs1 where
      e1: "tr1 = tr @ evs1" "Quit \<notin> set evs1"
      "count_list evs1 (Click ShowMoreButton) \<le> 1"
      "count_list evs1 (WaitClickable ShowMoreButton 40) \<le> 1"
      by blast
    show ?thesis
    proof (cases clicked)
      case False
      with True c 1(2) have y: "y = (click_count, tr1)" by simp
      have "\<forall>n. max_clicks = Some n \<longrightarrow>
           fst y \<le> max click_count n \<and>
           count_list evs1 (Click ShowMoreButton) \<le> nat (n - click_count) \<and>
           count_list evs1 (WaitClickable ShowMoreButton 40) \<le> nat (n - click_count)"
        using True e1(3,4) y by auto
      with y e1(1,2) show ?thesis by auto
    next
      case clicked: True
      with True c 1(2) have "loop w max_clicks (click_count + 1) tr1 = Some y" by simp
      from 1(1) [OF this, unfolded loop_result_def] obtain evs2 where
        le: "click_count + 1 \<le> fst y" and
        e2: "snd y = tr1 @ evs2" "Quit \<notin> set evs2" and
        b: "\<forall>n. max_clicks = Some n \<longrightarrow>
           fst y \<le> max (click_count + 1) n \<and>
           count_list evs2 (Click ShowMoreButton) \<le> nat (n - (click_count + 1)) \<and>
           count_list evs2 (WaitClickable ShowMoreButton 40) \<le> nat (n - (click_count + 1))"
        by blast
      have "\<forall>n. max_clicks = Some n \<longrightarrow>
           fst y \<le> max click_count n \<and>
           count_list (evs1 @ evs2) (Click ShowMoreButton) \<le> nat (n - click_count) \<and>
           count_list (evs1 @ evs2) (WaitClickable ShowMoreButton 40) \<le> nat (n - click_count)"
      proof (intro allI impI)
        fix n assume n: "max_clicks = Some n"
        with True have lt: "click_count < n" by simp
        from b n have "fst y \<le> max (click_count + 1) n"
          "count_list evs2 (Click ShowMoreButton) \<le> nat (n - (click_count + 1))"
          "count_list evs2 (WaitClickable ShowMoreButton 40) \<le> nat (n - (click_count + 1))"
          by simp_all
        with lt e1(3,4) show "fst y \<le> max click_count n \<and>
           count_list (evs1 @ evs2) (Click ShowMoreButton) \<le> nat (n - click_count) \<and>
           count_list (evs1 @ evs2) (WaitClickable ShowMoreButton 40) \<le> nat (n - click_count)"
          by (simp add: count_list_append) linarith
      qed
      moreover have "snd y = tr @ (evs1 @ evs2)" using e1(1) e2(1) by simp
      moreover have "Quit \<notin> set (evs1 @ evs2)" using e1(2) e2(2) by simp
      ultimately show ?thesis using le by (intro conjI exI [of _ "evs1 @ evs2"]) auto
    qed
  qed
  then show "loop_result w max_clicks click_count tr y" by (simp add: loop_result_def)
qed

lemma show_more_loop_terminates:
  "\<exists>y. show_more_loop w (Some n) click_count tr = Some y"
proof (induction "nat (n - click_count)" arbitrary: click_count tr)
  case 0
  then have "\<not> click_count < n" by simp
  then show ?case by (subst show_more_loop.simps) simp
next
  case (Suc k)
  then have lt: "click_count < n" by linarith
  obtain clicked tr1 where c: "click_show_more w tr = (clicked, tr1)"
    by (cases "click_show_more w tr")
  from Suc(2) have "k = nat (n - (click_count + 1))" by linarith
  from Suc(1) [OF this] obtain y where "show_more_loop w (Some n) (click_count + 1) tr1 = Some y"
    by blast
  with lt c show ?case by (subst show_more_loop.simps) auto
qed

lemma extract_html_body_trace:
  assumes "extract_html_body w url city max_clicks tr = Some (r, tr')"
  shows "\<exists>evs. tr' = tr @ evs \<and> Quit \<notin> set evs \<and>
           (\<forall>n. max_clicks = Some n \<longrightarrow> count_list evs (Click ShowMoreButton) \<le> nat n) \<and>
           (\<forall>html. r = Inr html \<longrightarrow> (\<exists>t0. tr' = t0 @ [PageSource] \<and> html = page_source w t0))"
proof -
  let ?pre = "then_do (call w tr (Get url)) (\<lambda>u tr.
           then_do (set_location_filter w city tr) (\<lambda>u tr. click_search_button w tr))"
  obtain rp tp where pre: "?pre = (rp, tp)" by (cases ?pre)
  from prelude_appended [of tr w url city] pre obtain evs0 where
    tp: "tp = tr @ evs0" and e0: "set evs0 \<subseteq> prelude_events"
    by (auto simp: appended_def)
  from e0 have q0: "Quit \<notin> set evs0" and c0: "Click ShowMoreButton \<notin> set evs0"
    by (auto simp: prelude_events_def)
  show ?thesis
  proof (cases rp)
    case (Inl e)
    with assms pre have "r = Inl e" "tr' = tp" by (simp_all add: extract_html_body_def)
    with tp q0 c0 show ?thesis by (auto simp: count_list_0_iff)
  next
    case (Inr u)
    with assms pre obtain c tl where
      loop: "show_more_loop w max_clicks 0 tp = Some (c, tl)" and
      res: "(r, tr') = then_do (call w tl PageSource) (\<lambda>u tr. (Inr (page_source w tl), tr))"
      by (auto simp: extract_html_body_def split: option.splits)
    from show_more_loop_trace [OF loop] obtain evs1 where
      tl: "tl = tp @ evs1" and q1: "Quit \<notin> set evs1" and
      b: "\<forall>n. max_clicks = Some n \<longrightarrow> count_list evs1 (Click ShowMoreButton) \<le> nat (n - 0)"
      by (auto simp: loop_result_def)
    from res have tr': "tr' = tl @ [PageSource]"
      and html: "\<forall>html. r = Inr html \<longrightarrow> html = page_source w tl"
      by (auto simp: then_do_def call_def split: option.splits)
    have "tr' = tr @ (evs0 @ evs1 @ [PageSource])" using tr' tl tp by simp
    moreover have "Quit \<notin> set (evs0 @ evs1 @ [PageSource])" using q0 q1 by simp
    moreover have "\<forall>n. max_clicks = Some n \<longrightarrow>
        count_list (evs0 @ evs1 @ [PageSource]) (Click ShowMoreButton) \<le> nat n"
      using b c0 by (auto simp: count_list_append count_list_0_iff)
    moreover have "\<forall>html. r = Inr html \<longrightarrow> (\<exists>t0. tr' = t0 @ [PageSource] \<and> html = page_source w t0)"
      using tr' html by blast
    ultimately show ?thesis by blast
  qed
qed

lemma extract_html_body_terminates:
  "\<exists>y. extract_html_body w url city (Some n) tr = Some y"
proof -
  let ?pre = "then_do (call w tr (Get url)) (\<lambda>u tr.
           then_do (set_location_filter w city tr) (\<lambda>u tr. click_search_button w tr))"
  obtain rp tp where pre: "?pre = (rp, tp)" by (cases ?pre)
  obtain y where "show_more_loop w (Some n) 0 tp = Some y"
    using show_more_loop_terminates by blast
  with pre show ?thesis
    by (cases rp; cases y) (simp_all add: extract_html_body_def)
qed

lemma extract_html_no_session:
  "outcome w [] NewChrome = Some e \<Longrightarrow>
     extract_html w url city max_clicks = Some (Inl e, [NewChrome])"
  by (simp add: extract_html_def call_def)

lemma extract_html_session:
  "outcome w [] NewChrome = None \<Longrightarrow>
     extract_html w url city max_clicks =
       (case extract_html_body w url city max_clicks [NewChrome] of
          None \<Rightarrow> None
        | Some (r, tr') \<Rightarrow> Some (r, tr' @ [Quit]))"
  by (simp add: extract_html_def call_def)

lemma extract_html_trace:
  assumes "extract_html w url city max_clicks = Some (r, tr)"
    and "outcome w [] NewChrome = None"
  shows "\<exists>evs. tr = NewChrome # evs @ [Quit] \<and> Quit \<notin> set evs \<and>
           (\<forall>n. max_clicks = Some n \<longrightarrow> count_list evs (Click ShowMoreButton) \<le> nat n) \<and>
           (\<forall>html. r = Inr html \<longrightarrow>
              (\<exists>t0. tr = t0 @ [PageSource, Quit] \<and> html = page_source w t0))"
proof -
  from assms obtain tr' where
    b: "extract_html_body w url city max_clicks [NewChrome] = Some (r, tr')"
    and t: "tr = tr' @ [Quit]"
    by (auto simp: extract_html_session split: option.splits)
  from extract_html_body_trace [OF b] t show ?thesis by auto
qed

lemma extract_html_terminates:
  "\<exists>y. extract_html w url city (Some n) = Some y"
proof (cases "outcome w [] NewChrome")
  case None
  obtain r tr' where "extract_html_body w url city (Some n) [NewChrome] = Some (r, tr')"
    using extract_html_body_terminates [of w url city n "[NewChrome]"] by auto
  with None show ?thesis by (simp add: extract_html_session)
next
  case (Some e)
  then show ?thesis by (simp add: extract_html_no_session)
qed

lemma extract_html_filter_timeout:
  assumes "outcome w [] NewChrome = None"
    and "outcome w [NewChrome] (Get url) = None"
    and "outcome w [NewChrome, Get url] (WaitVisible LocationInput 10) = None"
    and "outcome w [NewChrome, Get url, WaitVisible LocationInput 10] (Clear LocationInput) = None"
    and "outcome w [NewChrome, Get url, WaitVisible LocationInput 10, Clear LocationInput]
           (SendKeys LocationInput city) = None"
    and "outcome w [NewChrome, Get url, WaitVisible LocationInput 10, Clear LocationInput,
                    SendKeys LocationInput city]
           (WaitClickable (FilterLabel city) 10) = Some TimeoutException"
  shows "extract_html w url city max_clicks =
           Some (Inl TimeoutException,
                 [NewChrome, Get url, WaitVisible LocationInput 10, Clear LocationInput,
                  SendKeys LocationInput city, WaitClickable (FilterLabel city) 10, Quit])"
  using assms
  by (simp add: extract_html_session extract_html_body_def then_do_def call_def
      set_location_filter_def click_checkbox_by_label_def)

lemma extract_html_never_clickable:
  assumes others: "\<forall>tr e. e \<noteq> WaitClickable ShowMoreButton 40 \<and>
                      e \<noteq> WaitClickable ShowMoreByText 20 \<longrightarrow> outcome w tr e = None"
    and ready: "\<forall>tr. outcome w tr (WaitClickable ShowMoreByText 20) = None \<or>
                     outcome w tr (WaitClickable ShowMoreByText 20) = Some TimeoutException"
    and never: "\<forall>tr. outcome w tr (WaitClickable ShowMoreButton 40) \<noteq> None"
  shows "extract_html w url city max_clicks =
           (let tr = setup_trace url city @
                     (if (case max_clicks of None \<Rightarrow> True | Some m \<Rightarrow> 0 < m)
                      then [WaitClickable ShowMoreButton 40] else [])
            in Some (Inr (page_source w tr), tr @ [PageSource, Quit]))"
proof -
  have o: "outcome w tr e = None"
    if "e \<noteq> WaitClickable ShowMoreButton 40" "e \<noteq> WaitClickable ShowMoreByText 20" for tr e
    using others that by blast
  have pre: "then_do (call w [NewChrome] (Get url)) (\<lambda>u tr.
           then_do (set_location_filter w city tr) (\<lambda>u tr. click_search_button w tr)) =
        (Inr (), setup_trace url city)"
    using ready [rule_format, of "[NewChrome, Get url, WaitVisible LocationInput 10,
      Clear LocationInput, SendKeys LocationInput city, WaitClickable (FilterLabel city) 10,
      ScriptClick (FilterLabel city), WaitClickable SearchButton 20, ScriptClick SearchButton]"]
    by (auto simp: then_do_def call_def set_location_filter_def click_checkbox_by_label_def
        click_search_button_def o setup_trace_def)
  have csm: "click_show_more w tr = (False, tr @ [WaitClickable ShowMoreButton 40])" for tr
    using never [rule_format, of tr]
    by (auto simp: click_show_more_def then_do_def call_def split: option.splits)
  have loop: "show_more_loop w max_clicks 0 (setup_trace url city) =
      Some (0, setup_trace url city @
                     (if (case max_clicks of None \<Rightarrow> True | Some m \<Rightarrow> 0 < m)
                      then [WaitClickable ShowMoreButton 40] else []))"
    by (subst show_more_loop.simps) (simp add: csm)
  have "extract_html_body w url city max_clicks [NewChrome] =
      (let tr = setup_trace url city @
                     (if (case max_clicks of None \<Rightarrow> True | Some m \<Rightarrow> 0 < m)
                      then [WaitClickable ShowMoreButton 40] else [])
       in Some (Inr (page_source w tr), tr @ [PageSource]))"
    unfolding extract_html_body_def pre
    by (simp add: loop then_do_def call_def o Let_def)
  moreover have "outcome w [] NewChrome = None" by (simp add: o)
  ultimately show ?thesis by (simp add: extract_html_session Let_def)
qed

text \<open>
  C6.  Once the driver exists, every return of \<open>extract_html\<close>, with the markup or with
  an exception, has quit the driver exactly once, as its last call; on success the
  markup returned is the page source read just before.  When the label of the location
  filter does not become clickable within its wait, the \<open>TimeoutException\<close> (the
  \<open>FilterUnavailable\<close> of the specification) reaches the caller after the driver was
  quit.  With a bound on the clicks the function always returns.  When the driver cannot
  be created there is no session to close.
\<close>

theorem extract_html_quits_once:
  "(outcome w [] NewChrome = None \<and> extract_html w url city max_clicks = Some (r, tr) \<longrightarrow>
      count_list tr Quit = 1 \<and> last tr = Quit \<and>
      (\<forall>html. r = Inr html \<longrightarrow>
         (\<exists>t0. tr = t0 @ [PageSource, Quit] \<and> html = page_source w t0))) \<and>
   (outcome w [] NewChrome = None \<and>
    outcome w [NewChrome] (Get url) = None \<and>
    outcome w [NewChrome, Get url] (WaitVisible LocationInput 10) = None \<and>
    outcome w [NewChrome, Get url, WaitVisible LocationInput 10] (Clear LocationInput) = None \<and>
    outcome w [NewChrome, Get url, WaitVisible LocationInput 10, Clear LocationInput]
      (SendKeys LocationInput city) = None \<and>
    outcome w [NewChrome, Get url, WaitVisible LocationInput 10, Clear LocationInput,
               SendKeys LocationInput city]
      (WaitClickable (FilterLabel city) 10) = Some TimeoutException \<longrightarrow>
      extract_html w url city max_clicks =
        Some (Inl TimeoutException,
              [NewChrome, Get url, WaitVisible LocationInput 10, Clear LocationInput,
               SendKeys LocationInput city, WaitClickable (FilterLabel city) 10, Quit])) \<and>
   (\<exists>y. extract_html w url city (Some n) = Some y) \<and>
   (\<forall>e. outcome w [] NewChrome = Some e \<longrightarrow>
      extract_html w url city max_clicks = Some (Inl e, [NewChrome]))"
proof -
  have 1: "count_list tr Quit = 1 \<and> last tr = Quit \<and>
      (\<forall>html. r = Inr html \<longrightarrow>
         (\<exists>t0. tr = t0 @ [PageSource, Quit] \<and> html = page_source w t0))"
    if a: "outcome w [] NewChrome = None"
      and b: "extract_html w url city max_clicks = Some (r, tr)"
  proof -
    from extract_html_trace [OF b a] obtain evs where
      t: "tr = NewChrome # evs @ [Quit]" and q: "Quit \<notin> set evs" and
      h: "\<forall>html. r = Inr html \<longrightarrow>
              (\<exists>t0. tr = t0 @ [PageSource, Quit] \<and> html = page_source w t0)"
      by blast
    from q have "count_list evs Quit = 0" by (simp add: count_list_0_iff)
    with t have "count_list tr Quit = 1" by (simp add: count_list_append)
    moreover from t have "last tr = Quit" by simp
    ultimately show ?thesis using h by blast
  qed
  show ?thesis
    apply (intro conjI impI allI)
         apply (elim conjE, drule (1) 1, blast)
        apply (elim conjE, drule (1) 1, blast)
       apply (elim conjE, drule (1) 1, blast)
      apply (elim conjE, erule (5) extract_html_filter_timeout)
     apply (rule extract_html_terminates)
    apply (erule extract_html_no_session)
    done
qed

theorem extract_html_quits_once_witness:
  "extract_html filter_fail_world website_url ''Salcedo Village'' (Some 4) =
     Some (Inl TimeoutException,
           [NewChrome, Get website_url, WaitVisible LocationInput 10, Clear LocationInput,
            SendKeys LocationInput ''Salcedo Village'',
            WaitClickable (FilterLabel ''Salcedo Village'') 10, Quit]) \<and>
   (\<exists>tr. extract_html never_world website_url ''Salcedo Village'' None = Some (Inr '''', tr) \<and>
         count_list tr Quit = 1 \<and> last tr = Quit)"
proof -
  note t1 = extract_html_quits_once
    [of filter_fail_world website_url "''Salcedo Village''" "Some 4" _ _ 4]
  have a: "extract_html filter_fail_world website_url ''Salcedo Village'' (Some 4) =
     Some (Inl TimeoutException,
           [NewChrome, Get website_url, WaitVisible LocationInput 10, Clear LocationInput,
            SendKeys LocationInput ''Salcedo Village'',
            WaitClickable (FilterLabel ''Salcedo Village'') 10, Quit])"
    by (rule t1 [THEN conjunct2, THEN conjunct1, rule_format])
       (simp add: filter_fail_world_def)
  have n: "extract_html never_world website_url ''Salcedo Village'' None =
      Some (Inr '''', (setup_trace website_url ''Salcedo Village'' @
                       [WaitClickable ShowMoreButton 40]) @ [PageSource, Quit])"
    using extract_html_never_clickable [of never_world website_url "''Salcedo Village''" None]
    by (simp add: never_world_def)
  have o: "outcome never_world [] NewChrome = None" by (simp add: never_world_def)
  note t2 = extract_html_quits_once
    [of never_world website_url "''Salcedo Village''" None "Inr ''''"
      "(setup_trace website_url ''Salcedo Village'' @
          [WaitClickable ShowMoreButton 40]) @ [PageSource, Quit]" 0]
  from t2 [THEN conjunct1, rule_format, OF conjI [OF o n]]
  have "count_list ((setup_trace website_url ''Salcedo Village'' @
          [WaitClickable ShowMoreButton 40]) @ [PageSource, Quit]) Quit = 1 \<and>
        last ((setup_trace website_url ''Salcedo Village'' @
          [WaitClickable ShowMoreButton 40]) @ [PageSource, Quit]) = Quit"
    by blast
  with n a show ?thesis by blast
qed

text \<open>
  C9.  With \<open>max_clicks = n\<close> the loop returns, its counter of successful clicks is at
  most \<open>n\<close>, and it has waited for the button and clicked it at most \<open>n\<close> times; so
  \<open>extract_html\<close> returns, after at most \<open>n\<close> clicks.  When the button for more results
  is never clickable (and the calls before the loop return, the wait for the results
  view returning or timing out), \<open>extract_html\<close> returns the current markup without
  having clicked the button, whatever \<open>max_clicks\<close> is.
\<close>

theorem show_more_loop_bounded:
  "(\<exists>c tr'. show_more_loop w (Some n) 0 tr = Some (c, tr') \<and> 0 \<le> c \<and> c \<le> max 0 n \<and>
      (\<exists>evs. tr' = tr @ evs \<and>
         count_list evs (Click ShowMoreButton) \<le> nat n \<and>
         count_list evs (WaitClickable ShowMoreButton 40) \<le> nat n)) \<and>
   (\<exists>r tr'. extract_html w url city (Some n) = Some (r, tr') \<and>
      count_list tr' (Click ShowMoreButton) \<le> nat n) \<and>
   ((\<forall>tr e. e \<noteq> WaitClickable ShowMoreButton 40 \<and> e \<noteq> WaitClickable ShowMoreByText 20 \<longrightarrow>
              outcome w tr e = None) \<and>
    (\<forall>tr. outcome w tr (WaitClickable ShowMoreByText 20) = None \<or>
          outcome w tr (WaitClickable ShowMoreByText 20) = Some TimeoutException) \<and>
    (\<forall>tr. outcome w tr (WaitClickable ShowMoreButton 40) \<noteq> None) \<longrightarrow>
      (\<exists>tr'. extract_html w url city max_clicks =
               Some (Inr (page_source w tr'), tr' @ [PageSource, Quit]) \<and>
             Click ShowMoreButton \<notin> set tr' \<and> ScriptClick ShowMoreButton \<notin> set tr' \<and>
             count_list tr' (WaitClickable ShowMoreButton 40) \<le> 1))"
proof -
  obtain y where y: "show_more_loop w (Some n) 0 tr = Some y"
    using show_more_loop_terminates by blast
  from show_more_loop_trace [OF y]
  have 1: "\<exists>c tr'. show_more_loop w (Some n) 0 tr = Some (c, tr') \<and> 0 \<le> c \<and> c \<le> max 0 n \<and>
      (\<exists>evs. tr' = tr @ evs \<and>
         count_list evs (Click ShowMoreButton) \<le> nat n \<and>
         count_list evs (WaitClickable ShowMoreButton 40) \<le> nat n)"
    using y by (cases y) (auto simp: loop_result_def)
  obtain r tr' where e: "extract_html w url city (Some n) = Some (r, tr')"
    using extract_html_terminates [of w url city n] by auto
  have "count_list tr' (Click ShowMoreButton) \<le> nat n"
  proof (cases "outcome w [] NewChrome")
    case None
    from extract_html_trace [OF e None] obtain evs where
      "tr' = NewChrome # evs @ [Quit]" "count_list evs (Click ShowMoreButton) \<le> nat n"
      by auto
    then show ?thesis by (simp add: count_list_append)
  next
    case (Some x)
    with e have "tr' = [NewChrome]" by (simp add: extract_html_no_session)
    then show ?thesis by simp
  qed
  with e have 2: "\<exists>r tr'. extract_html w url city (Some n) = Some (r, tr') \<and>
      count_list tr' (Click ShowMoreButton) \<le> nat n" by blast
  have 3: "\<exists>tr'. extract_html w url city max_clicks =
               Some (Inr (page_source w tr'), tr' @ [PageSource, Quit]) \<and>
             Click ShowMoreButton \<notin> set tr' \<and> ScriptClick ShowMoreButton \<notin> set tr' \<and>
             count_list tr' (WaitClickable ShowMoreButton 40) \<le> 1"
    if h: "\<forall>tr e. e \<noteq> WaitClickable ShowMoreButton 40 \<and> e \<noteq> WaitClickable ShowMoreByText 20 \<longrightarrow>
              outcome w tr e = None"
      "\<forall>tr. outcome w tr (WaitClickable ShowMoreByText 20) = None \<or>
          outcome w tr (WaitClickable ShowMoreByText 20) = Some TimeoutException"
      "\<forall>tr. outcome w tr (WaitClickable ShowMoreButton 40) \<noteq> None"
  proof -
    let ?tr = "setup_trace url city @
                     (if (case max_clicks of None \<Rightarrow> True | Some m \<Rightarrow> 0 < m)
                      then [WaitClickable ShowMoreButton 40] else [])"
    from extract_html_never_clickable [OF h, of url city max_clicks]
    have "extract_html w url city max_clicks =
            Some (Inr (page_source w ?tr), ?tr @ [PageSource, Quit])"
      by (simp add: Let_def)
    moreover have "Click ShowMoreButton \<notin> set ?tr" "ScriptClick ShowMoreButton \<notin> set ?tr"
      "count_list ?tr (WaitClickable ShowMoreButton 40) \<le> 1"
      by (simp_all add: setup_trace_def)
    ultimately show ?thesis by blast
  qed
  from 1 2 3 show ?thesis by blast
qed

theorem show_more_loop_bounded_witness:
  "(\<exists>tr'. extract_html never_world website_url ''Salcedo Village'' (Some 4) =
            Some (Inr '''', tr' @ [PageSource, Quit]) \<and>
          Click ShowMoreButton \<notin> set tr' \<and> ScriptClick ShowMoreButton \<notin> set tr')"
proof -
  have h: "\<forall>tr e. e \<noteq> WaitClickable ShowMoreButton 40 \<and> e \<noteq> WaitClickable ShowMoreByText 20 \<longrightarrow>
              outcome never_world tr e = None"
      "\<forall>tr. outcome never_world tr (WaitClickable ShowMoreByText 20) = None \<or>
          outcome never_world tr (WaitClickable ShowMoreByText 20) = Some TimeoutException"
      "\<forall>tr. outcome never_world tr (WaitClickable ShowMoreButton 40) \<noteq> None"
    by (simp_all add: never_world_def)
  have p: "page_source never_world t = ''''" for t by (simp add: never_world_def)
  from show_more_loop_bounded
    [of never_world 4 "[]" website_url "''Salcedo Village''" "Some 4",
      THEN conjunct2, THEN conjunct2, rule_format, OF conjI [OF h(1) conjI [OF h(2) h(3)]]]
  show ?thesis unfolding p by blast
qed

section \<open>Properties of the collection of listings\<close>

lemma cards_loop_records:
  "\<exists>rs. cards_loop listings cards = Inr (listings @ rs) \<and> length rs = length cards \<and>
        (\<forall>i<length cards. extract_from_card (cards ! i) = Inr (rs ! i))"
proof (induction cards arbitrary: listings)
  case Nil
  then show ?case by simp
next
  case (Cons c cs)
  obtain r where r: "extract_from_card c = Inr r"
    using extract_from_card_shape [of c] by blast
  from Cons [of "listings @ [r]"] obtain rs where
    l: "cards_loop (listings @ [r]) cs = Inr ((listings @ [r]) @ rs)" and
    n: "length rs = length cs" and
    e: "\<forall>i<length cs. extract_from_card (cs ! i) = Inr (rs ! i)"
    by blast
  have "cards_loop listings (c # cs) = Inr (listings @ (r # rs))"
    using r l by (simp add: bind_exn_def)
  moreover have "length (r # rs) = length (c # cs)" using n by simp
  moreover have "\<forall>i<length (c # cs). extract_from_card ((c # cs) ! i) = Inr ((r # rs) ! i)"
    using r e by (auto simp: nth_Cons split: nat.splits)
  ultimately show ?case by blast
qed

lemma extract_listings_cases:
  "\<exists>rs. length rs = length (bs_find_all listing_card (lxml html)) \<and>
        (\<forall>i<length rs. extract_from_card (bs_find_all listing_card (lxml html) ! i) = Inr (rs ! i)) \<and>
        extract_listings lxml html =
          (if rs = [] then Inl ValueError
           else Inr (case bs_find (is_named ''title'') (lxml html) of
                       Some title_tag \<Rightarrow> strip (get_text title_tag)
                     | None \<Rightarrow> '''', rs))"
proof -
  from cards_loop_records [of "[]" "bs_find_all listing_card (lxml html)"]
  obtain rs where l: "cards_loop [] (bs_find_all listing_card (lxml html)) = Inr rs"
    and n: "length rs = length (bs_find_all listing_card (lxml html))"
    and e: "\<forall>i<length (bs_find_all listing_card (lxml html)).
              extract_from_card (bs_find_all listing_card (lxml html) ! i) = Inr (rs ! i)"
    by auto
  have "extract_listings lxml html =
          (if rs = [] then Inl ValueError
           else Inr (case bs_find (is_named ''title'') (lxml html) of
                       Some title_tag \<Rightarrow> strip (get_text title_tag)
                     | None \<Rightarrow> '''', rs))"
    using l by (simp add: extract_listings_def bind_exn_def Let_def)
  with n e show ?thesis by auto
qed

text \<open>
  C3.  \<open>extract_listings\<close> raises exactly when no listing card is found, and then it
  raises the \<open>ValueError\<close> for no listings (the \<open>NoListingsFound\<close> of the
  specification); it raises nothing else.  When cards are found it returns the stripped
  page title and one record for each card, in document order.  In \<open>main\<close> the error
  reaches the caller: nothing catches it.
\<close>

theorem extract_listings_no_listings:
  "(extract_listings lxml html = Inl ValueError \<longleftrightarrow>
      bs_find_all listing_card (lxml html) = []) \<and>
   (\<forall>e. extract_listings lxml html = Inl e \<longrightarrow> e = ValueError) \<and>
   (bs_find_all listing_card (lxml html) \<noteq> [] \<longrightarrow>
      (\<exists>records. extract_listings lxml html =
           Inr (case bs_find (is_named ''title'') (lxml html) of
                  Some title_tag \<Rightarrow> strip (get_text title_tag)
                | None \<Rightarrow> '''', records) \<and>
         length records = length (bs_find_all listing_card (lxml html)) \<and>
         (\<forall>i<length records.
            extract_from_card (bs_find_all listing_card (lxml html) ! i) = Inr (records ! i)))) \<and>
   (extract_html w website_url ''Salcedo Village'' (Some 4) = Some (Inr html, tr) \<and>
    bs_find_all listing_card (lxml html) = [] \<longrightarrow>
      main w lxml = Some (Inl ValueError))"
proof -
  from extract_listings_cases [of lxml html] obtain rs where
    n: "length rs = length (bs_find_all listing_card (lxml html))" and
    e: "\<forall>i<length rs. extract_from_card (bs_find_all listing_card (lxml html) ! i) = Inr (rs ! i)" and
    x: "extract_listings lxml html =
          (if rs = [] then Inl ValueError
           else Inr (case bs_find (is_named ''title'') (lxml html) of
                       Some title_tag \<Rightarrow> strip (get_text title_tag)
                     | None \<Rightarrow> '''', rs))"
    by blast
  from n have z: "rs = [] \<longleftrightarrow> bs_find_all listing_card (lxml html) = []" by auto
  have 1: "extract_listings lxml html = Inl ValueError \<longleftrightarrow>
      bs_find_all listing_card (lxml html) = []"
    using x z by auto
  have 2: "\<forall>e. extract_listings lxml html = Inl e \<longrightarrow> e = ValueError"
    using x by (auto split: if_splits)
  have 3: "\<exists>records. extract_listings lxml html =
           Inr (case bs_find (is_named ''title'') (lxml html) of
                  Some title_tag \<Rightarrow> strip (get_text title_tag)
                | None \<Rightarrow> '''', records) \<and>
         length records = length (bs_find_all listing_card (lxml html)) \<and>
         (\<forall>i<length records.
            extract_from_card (bs_find_all listing_card (lxml html) ! i) = Inr (records ! i))"
    if "bs_find_all listing_card (lxml html) \<noteq> []"
    using that x z n e by auto
  have 4: "main w lxml = Some (Inl ValueError)"
    if "extract_html w website_url ''Salcedo Village'' (Some 4) = Some (Inr html, tr)"
      "bs_find_all listing_card (lxml html) = []"
    using that 1 by (simp add: main_def)
  show ?thesis
    apply (intro conjI)
       apply (rule 1)
      apply (rule 2)
     apply (rule impI, erule 3)
    apply (rule impI, elim conjE, erule (1) 4)
    done
qed

theorem extract_listings_no_listings_witness:
  "main never_world sample_lxml = Some (Inl ValueError) \<and>
   (\<exists>records. extract_listings sample_lxml ''<html>'' = Inr (''Listings'', records) \<and>
      length records = 2 \<and>
      extract_from_card empty_card = Inr (records ! 0) \<and>
      extract_from_card attr_price_card = Inr (records ! 1))"
proof -
  have n: "extract_html never_world website_url ''Salcedo Village'' (Some 4) =
      Some (Inr '''', (setup_trace website_url ''Salcedo Village'' @
                       [WaitClickable ShowMoreButton 40]) @ [PageSource, Quit])"
    using extract_html_never_clickable [of never_world website_url "''Salcedo Village''" "Some 4"]
    by (simp add: never_world_def)
  have c0: "bs_find_all listing_card (sample_lxml '''') = []"
    by (simp add: sample_lxml_def bs_find_all_def descendants_def)
  have c1: "bs_find_all listing_card (sample_lxml ''<html>'') = [empty_card, attr_price_card]"
    by (simp add: sample_lxml_def bs_find_all_def descendants_def empty_card_def
        attr_price_card_def listing_card_def startswith_def)
  have t1: "bs_find (is_named ''title'') (sample_lxml ''<html>'') =
              Some (Tag ''title'' [] [NavigableString '' Listings ''])"
    by (simp add: sample_lxml_def bs_find_def bs_find_all_def descendants_def empty_card_def
        attr_price_card_def)
  have s1: "strip '' Listings '' = ''Listings''"
    by (simp add: strip_def is_space_def)
  from extract_listings_no_listings
    [of sample_lxml "''''" never_world
      "(setup_trace website_url ''Salcedo Village'' @
          [WaitClickable ShowMoreButton 40]) @ [PageSource, Quit]",
      THEN conjunct2, THEN conjunct2, THEN conjunct2, rule_format, OF conjI [OF n c0]]
  have a: "main never_world sample_lxml = Some (Inl ValueError)" .
  have ne: "bs_find_all listing_card (sample_lxml ''<html>'') \<noteq> []" by (simp add: c1)
  from extract_listings_no_listings
    [of sample_lxml "''<html>''", THEN conjunct2, THEN conjunct2, THEN conjunct1,
      rule_format, OF ne]
  have "\<exists>records. extract_listings sample_lxml ''<html>'' = Inr (''Listings'', records) \<and>
    length records = 2 \<and>
    (\<forall>i<length records. extract_from_card ([empty_card, attr_price_card] ! i) = Inr (records ! i))"
    unfolding c1 t1 by (simp add: s1 numeral_2_eq_2)
  then obtain records where
    "extract_listings sample_lxml ''<html>'' = Inr (''Listings'', records)"
    "length records = 2"
    "\<forall>i<length records. extract_from_card ([empty_card, attr_price_card] ! i) = Inr (records ! i)"
    by blast
  then have "extract_listings sample_lxml ''<html>'' = Inr (''Listings'', records) \<and>
      length records = 2 \<and>
      extract_from_card empty_card = Inr (records ! 0) \<and>
      extract_from_card attr_price_card = Inr (records ! 1)"
    by (auto dest: spec [of _ 0] spec [of _ 1])
  with a show ?thesis by blast
qed

end

